theory Spec2Isabelle
  imports Complex_Main "HOL-Library.Word" "HOL-Library.AList" "HOL-Library.List_Lexorder"
    "HOL-Library.Product_Lexorder"
begin

section \<open>Strings, character classes and maps of the host language\<close>

text \<open>
  A TypeScript string is a sequence of UTF-16 code units: \<^verbatim>\<open>text.length\<close> counts code
  units and \<^verbatim>\<open>text[i]\<close> is the string of the single code unit at index \<open>i\<close>.
\<close>

type_synonym jschar = "16 word"
type_synonym jsstring = "jschar list"

text \<open>ASCII literals of the source, as code units.\<close>

definition ascii :: "string \<Rightarrow> jsstring" where
  "ascii s = map of_char s"

text \<open>
  The regular-expression class \<^verbatim>\<open>\s\<close> of ECMAScript: the WhiteSpace and LineTerminator
  code points. All of them are single code units.
\<close>

definition regex_s :: "jschar \<Rightarrow> bool" where
  "regex_s c \<longleftrightarrow>
     c = 0x0009 \<or> c = 0x000A \<or> c = 0x000B \<or> c = 0x000C \<or> c = 0x000D \<or> c = 0x0020 \<or>
     c = 0x00A0 \<or> c = 0x1680 \<or> (0x2000 \<le> c \<and> c \<le> 0x200A) \<or> c = 0x2028 \<or> c = 0x2029 \<or>
     c = 0x202F \<or> c = 0x205F \<or> c = 0x3000 \<or> c = 0xFEFF"

text \<open>
  The class \<^verbatim>\<open>\w\<close> of a regular expression without the \<^verbatim>\<open>u\<close> and \<^verbatim>\<open>i\<close> flags:
  \<^verbatim>\<open>[A-Za-z0-9_]\<close>.
\<close>

definition regex_w :: "jschar \<Rightarrow> bool" where
  "regex_w c \<longleftrightarrow>
     (0x41 \<le> c \<and> c \<le> 0x5A) \<or> (0x61 \<le> c \<and> c \<le> 0x7A) \<or> (0x30 \<le> c \<and> c \<le> 0x39) \<or> c = 0x5F"

text \<open>
  A \<^verbatim>\<open>Map<string, number>\<close> iterates in insertion order and \<^verbatim>\<open>set\<close> on a present key
  keeps the key's position: an association list, updated in place or extended at the end.
  The counts stay far below \<open>2^53\<close> (a string has fewer code units than that), so the
  \<^verbatim>\<open>number\<close> arithmetic on them is exact and they are natural numbers here.
\<close>

type_synonym Map = "(jsstring \<times> nat) list"

definition Map_get :: "Map \<Rightarrow> jsstring \<Rightarrow> nat option" where
  "Map_get m k = map_of m k"

definition Map_set :: "Map \<Rightarrow> jsstring \<Rightarrow> nat \<Rightarrow> Map" where
  "Map_set m k v = AList.update k v m"

text \<open>\<^verbatim>\<open>x || 0\<close> on the result of \<^verbatim>\<open>get\<close>: \<^verbatim>\<open>undefined\<close> and \<open>0\<close> both give \<open>0\<close>.\<close>

definition or0 :: "nat option \<Rightarrow> nat" where
  "or0 x = (case x of None \<Rightarrow> 0 | Some n \<Rightarrow> n)"

text \<open>\<^verbatim>\<open>m.set(k, (m.get(k) || 0) + 1)\<close>\<close>

definition increment :: "Map \<Rightarrow> jsstring \<Rightarrow> Map" where
  "increment m k = Map_set m k (or0 (Map_get m k) + 1)"

definition sum_counts :: "Map \<Rightarrow> nat" where
  "sum_counts m = sum_list (map snd m)"

section \<open>The scanner: \<^verbatim>\<open>calculateNGrams\<close>\<close>

record 'a tables =
  monograms :: 'a
  bigrams :: 'a
  trigrams :: 'a
  skipgrams :: 'a
  words :: 'a

type_synonym RawNGramCounts = "Map tables"

record scan_state = "Map tables" +
  currentWord :: jsstring

definition isWhitespace :: "jschar \<Rightarrow> bool" where
  "isWhitespace char = regex_s char"

definition scan_init :: scan_state where
  "scan_init = \<lparr>monograms = [], bigrams = [], trigrams = [], skipgrams = [], words = [],
     currentWord = []\<rparr>"

text \<open>One iteration of the loop, at index \<open>i < length text\<close>.\<close>

definition loop_body :: "jsstring \<Rightarrow> nat \<Rightarrow> scan_state \<Rightarrow> scan_state" where
  "loop_body text i st =
     (let char = text ! i;
          st1 = st\<lparr>monograms := increment (monograms st) [char]\<rparr>;
          st2 = (if i + 1 < length text
                 then st1\<lparr>bigrams := increment (bigrams st1) [text ! i, text ! (i + 1)]\<rparr>
                 else st1);
          st3 = (if i + 2 < length text
                 then st2\<lparr>trigrams := increment (trigrams st2) [text ! i, text ! (i + 1), text ! (i + 2)],
                          skipgrams := increment (skipgrams st2) [text ! i, text ! (i + 2)]\<rparr>
                 else st2)
      in if isWhitespace char
         then (if length (currentWord st3) > 0
               then st3\<lparr>words := increment (words st3) (currentWord st3), currentWord := []\<rparr>
               else st3)
         else st3\<lparr>currentWord := currentWord st3 @ [char]\<rparr>)"

text \<open>The state after the iterations \<open>0, \<dots>, n - 1\<close>.\<close>

definition scan :: "jsstring \<Rightarrow> nat \<Rightarrow> scan_state" where
  "scan text n = fold (loop_body text) [0..<n] scan_init"

definition calculateNGrams :: "jsstring \<Rightarrow> RawNGramCounts" where
  "calculateNGrams text =
     (let st = scan text (length text);
          wordCounts = (if length (currentWord st) > 0
                        then increment (words st) (currentWord st) else words st)
      in \<lparr>monograms = monograms st, bigrams = bigrams st, trigrams = trigrams st,
          skipgrams = skipgrams st, words = wordCounts\<rparr>)"

text \<open>\<^verbatim>\<open>/\s/.test(sequence)\<close>: some code unit of the sequence is in the class.\<close>

definition containsWhitespace :: "jsstring \<Rightarrow> bool" where
  "containsWhitespace sequence = list_ex regex_s sequence"

section \<open>Shape of a raw table\<close>

text \<open>Every key of the table satisfies \<open>P\<close> and every stored count is at least 1.\<close>

definition table_ok :: "(jsstring \<Rightarrow> bool) \<Rightarrow> Map \<Rightarrow> bool" where
  "table_ok P m = list_all (\<lambda>(k, c). P k \<and> 1 \<le> c) m"

section \<open>Splitting a text on whitespace\<close>

text \<open>
  The reference the word table is compared with: \<^verbatim>\<open>text.split(/\s/)\<close> cuts the text at
  every whitespace code unit, and the non-empty pieces are the maximal runs of
  non-whitespace code units.
\<close>

fun splitWhitespace :: "jsstring \<Rightarrow> jsstring list" where
  "splitWhitespace [] = [[]]"
| "splitWhitespace (c # cs) =
     (if regex_s c then [] # splitWhitespace cs
      else (case splitWhitespace cs of [] \<Rightarrow> [[c]] | t # ts \<Rightarrow> (c # t) # ts))"

definition tokens :: "jsstring \<Rightarrow> jsstring list" where
  "tokens text = filter (\<lambda>t. t \<noteq> []) (splitWhitespace text)"

text \<open>The tokens completed by a whitespace code unit: all pieces but the last.\<close>

definition completed :: "jsstring \<Rightarrow> jsstring list" where
  "completed p = filter (\<lambda>t. t \<noteq> []) (butlast (splitWhitespace p))"

section \<open>The aggregator: \<^verbatim>\<open>filterAndReaggregate\<close>\<close>

record FilterSettings =
  filterWhitespace :: bool
  filterPunctuation :: bool
  caseSensitive :: bool

text \<open>The fields \<^verbatim>\<open>map\<close> and \<^verbatim>\<open>total\<close> of the source's \<^verbatim>\<open>CountMap\<close>.\<close>

record CountMap =
  cmap :: Map
  ctotal :: nat

text \<open>\<^verbatim>\<open>/[^\w\s]/.test(sequence)\<close>: some code unit is in neither class.\<close>

definition containsPunctuation :: "jsstring \<Rightarrow> bool" where
  "containsPunctuation sequence = list_ex (\<lambda>c. \<not> (regex_w c \<or> regex_s c)) sequence"

text \<open>
  \<^verbatim>\<open>String.prototype.toLowerCase\<close> follows the case tables of Unicode, which are not part
  of the repository: the functions that call it take it as the parameter \<open>toLowerCase\<close>,
  and what is proved of them holds for every such function.
\<close>

definition normalizeSequence :: "(jsstring \<Rightarrow> jsstring) \<Rightarrow> jsstring \<Rightarrow> bool \<Rightarrow> jsstring" where
  "normalizeSequence toLowerCase sequence caseSens =
     (if caseSens then sequence else toLowerCase sequence)"

text \<open>The body of the loop over \<^verbatim>\<open>counts.entries()\<close>, for one entry.\<close>

definition filter_entry ::
  "(jsstring \<Rightarrow> jsstring) \<Rightarrow> FilterSettings \<Rightarrow> jsstring \<times> nat \<Rightarrow> CountMap \<Rightarrow> CountMap" where
  "filter_entry toLowerCase filters entry acc =
     (case entry of (sequence, frequency) \<Rightarrow>
        if filterWhitespace filters \<and> containsWhitespace sequence then acc
        else if filterPunctuation filters \<and> containsPunctuation sequence then acc
        else
          let normalized = normalizeSequence toLowerCase sequence (caseSensitive filters);
              existingCount = or0 (Map_get (cmap acc) normalized)
          in \<lparr>cmap = Map_set (cmap acc) normalized (existingCount + frequency),
              ctotal = ctotal acc + frequency\<rparr>)"

definition filterAndReaggregate ::
  "(jsstring \<Rightarrow> jsstring) \<Rightarrow> Map \<Rightarrow> FilterSettings \<Rightarrow> CountMap" where
  "filterAndReaggregate toLowerCase counts filters =
     fold (filter_entry toLowerCase filters) counts \<lparr>cmap = [], ctotal = 0\<rparr>"

text \<open>A raw key passes the whitespace filter and the punctuation filter.\<close>

definition passes :: "FilterSettings \<Rightarrow> jsstring \<Rightarrow> bool" where
  "passes filters sequence \<longleftrightarrow>
     \<not> (filterWhitespace filters \<and> containsWhitespace sequence) \<and>
     \<not> (filterPunctuation filters \<and> containsPunctuation sequence)"

text \<open>The raw pairs that survive, before their keys are normalized.\<close>

definition survivors :: "FilterSettings \<Rightarrow> Map \<Rightarrow> Map" where
  "survivors filters counts = filter (\<lambda>entry. passes filters (fst entry)) counts"

section \<open>Ranking: \<^verbatim>\<open>mapToRankedArray\<close>\<close>

record NGramData =
  sequence :: jsstring
  frequency :: nat
  rank :: nat

text \<open>
  \<^verbatim>\<open>Array.prototype.sort\<close> with a comparator is a stable sort: for a consistent
  comparator its result is the one of any stable sorting algorithm, here insertion from
  the right, each element going before the first one it does not come after.
\<close>

fun insort_cmp :: "('a \<Rightarrow> 'a \<Rightarrow> int) \<Rightarrow> 'a \<Rightarrow> 'a list \<Rightarrow> 'a list" where
  "insort_cmp cmp x [] = [x]"
| "insort_cmp cmp x (y # ys) =
     (if cmp x y \<le> 0 then x # y # ys else y # insort_cmp cmp x ys)"

definition array_sort :: "('a \<Rightarrow> 'a \<Rightarrow> int) \<Rightarrow> 'a list \<Rightarrow> 'a list" where
  "array_sort cmp xs = foldr (insort_cmp cmp) xs []"

text \<open>
  The comparator of the source, on entries \<^verbatim>\<open>[sequence, frequency]\<close>. The host's
  \<^verbatim>\<open>String.prototype.localeCompare\<close> is the parameter \<open>localeCompare\<close>: its order is that of
  the host's collation, not given by the repository.
\<close>

definition compareEntries ::
  "(jsstring \<Rightarrow> jsstring \<Rightarrow> int) \<Rightarrow> jsstring \<times> nat \<Rightarrow> jsstring \<times> nat \<Rightarrow> int" where
  "compareEntries localeCompare a b =
     (if snd b \<noteq> snd a then int (snd b) - int (snd a)
      else localeCompare (fst a) (fst b))"

definition mapToRankedArray :: "(jsstring \<Rightarrow> jsstring \<Rightarrow> int) \<Rightarrow> CountMap \<Rightarrow> NGramData list" where
  "mapToRankedArray localeCompare countMap =
     (let entries = array_sort (compareEntries localeCompare) (cmap countMap)
      in map (\<lambda>(index, (sequence, frequency)).
                \<lparr>sequence = sequence, frequency = frequency, rank = index + 1\<rparr>)
           (enumerate 0 entries))"

section \<open>The entry point: \<^verbatim>\<open>calculateFilteredNGrams\<close>\<close>

record FilteredNGrams = "NGramData list tables" +
  totals :: "nat tables"

definition calculateFilteredNGrams ::
  "(jsstring \<Rightarrow> jsstring) \<Rightarrow> (jsstring \<Rightarrow> jsstring \<Rightarrow> int) \<Rightarrow> jsstring \<Rightarrow> FilterSettings
     \<Rightarrow> FilteredNGrams" where
  "calculateFilteredNGrams toLowerCase localeCompare text filters =
     (let rawCounts = calculateNGrams text;
          filteredMonograms = filterAndReaggregate toLowerCase (monograms rawCounts) filters;
          filteredBigrams = filterAndReaggregate toLowerCase (bigrams rawCounts) filters;
          filteredTrigrams = filterAndReaggregate toLowerCase (trigrams rawCounts) filters;
          filteredSkipgrams = filterAndReaggregate toLowerCase (skipgrams rawCounts) filters;
          filteredWords = filterAndReaggregate toLowerCase (words rawCounts) filters;
          totals = \<lparr>monograms = ctotal filteredMonograms, bigrams = ctotal filteredBigrams,
                    trigrams = ctotal filteredTrigrams, skipgrams = ctotal filteredSkipgrams,
                    words = ctotal filteredWords\<rparr>
      in \<lparr>monograms = mapToRankedArray localeCompare filteredMonograms,
          bigrams = mapToRankedArray localeCompare filteredBigrams,
          trigrams = mapToRankedArray localeCompare filteredTrigrams,
          skipgrams = mapToRankedArray localeCompare filteredSkipgrams,
          words = mapToRankedArray localeCompare filteredWords,
          totals = totals\<rparr>)"

text \<open>The sum of \<^verbatim>\<open>entry.frequency\<close> over a ranked list.\<close>

definition sum_frequency :: "NGramData list \<Rightarrow> nat" where
  "sum_frequency ranked = sum_list (map frequency ranked)"

section \<open>Consistent comparators\<close>

text \<open>
  What ECMAScript requires of a comparator, and of \<^verbatim>\<open>localeCompare\<close> as a function of two
  arguments: the signs of \<open>cmp a b\<close> and \<open>cmp b a\<close> are opposite, and ``not after'' is
  transitive. Distinct values may compare equal.
\<close>

definition consistent :: "('a \<Rightarrow> 'a \<Rightarrow> int) \<Rightarrow> bool" where
  "consistent cmp \<longleftrightarrow>
     (\<forall>a b. cmp a b < 0 \<longleftrightarrow> 0 < cmp b a) \<and>
     (\<forall>a b c. cmp a b \<le> 0 \<longrightarrow> cmp b c \<le> 0 \<longrightarrow> cmp a c \<le> 0)"

section \<open>A sample host\<close>

text \<open>
  Instances of the two host functions, for the examples. The first lowers the ASCII
  letters, which is what \<^verbatim>\<open>toLowerCase\<close> does on an ASCII string.
\<close>

definition lower_unit :: "jschar \<Rightarrow> jschar" where
  "lower_unit c = (if 0x41 \<le> c \<and> c \<le> 0x5A then c + 0x20 else c)"

definition sample_toLowerCase :: "jsstring \<Rightarrow> jsstring" where
  "sample_toLowerCase s = map lower_unit s"

text \<open>
  The second compares collation keys. On strings of ASCII letters it orders as the root
  collation of Unicode does, which browsers use: by the letters first, a lower-case letter
  before its upper-case form (\<^verbatim>\<open>"a".localeCompare("B")\<close> is negative). It treats alike the
  code units that are canonically equivalent to another one, as ECMAScript requires
  \<^verbatim>\<open>localeCompare\<close> to do: \<^verbatim>\<open>"\u2126".localeCompare("\u03A9")\<close>, OHM SIGN against GREEK
  CAPITAL LETTER OMEGA, is 0. Elsewhere it follows the code units.
\<close>

definition canonical_unit :: "jschar \<Rightarrow> jschar" where
  "canonical_unit c =
     (if c = 0x2126 then 0x03A9 else if c = 0x212A then 0x004B else if c = 0x212B then 0x00C5
      else c)"

definition collation_key :: "jsstring \<Rightarrow> jschar list \<times> bool list" where
  "collation_key s =
     (map (\<lambda>c. lower_unit (canonical_unit c)) s,
      map (\<lambda>c. lower_unit (canonical_unit c) \<noteq> canonical_unit c) s)"

definition sample_localeCompare :: "jsstring \<Rightarrow> jsstring \<Rightarrow> int" where
  "sample_localeCompare a b =
     (if collation_key a < collation_key b then - 1
      else if collation_key a = collation_key b then 0 else 1)"

section \<open>Letters and digits\<close>

text \<open>
  The reading of ``alphanumeric'' by which a non-ASCII letter is alphanumeric and an
  underscore is not: the letters and decimal digits of Unicode, here for the code units
  below U+0100.
\<close>

definition alphanumeric :: "jschar \<Rightarrow> bool" where
  "alphanumeric c \<longleftrightarrow>
     (0x30 \<le> c \<and> c \<le> 0x39) \<or> (0x41 \<le> c \<and> c \<le> 0x5A) \<or> (0x61 \<le> c \<and> c \<le> 0x7A) \<or>
     c = 0xAA \<or> c = 0xB5 \<or> c = 0xBA \<or> (0xC0 \<le> c \<and> c \<le> 0xFF \<and> c \<noteq> 0xD7 \<and> c \<noteq> 0xF7)"

section \<open>The export consumer: \<^verbatim>\<open>exportToCSV\<close>\<close>

text \<open>The string literals of the type \<^verbatim>\<open>NGramType\<close>.\<close>

datatype NGramType = Monograms | Bigrams | Trigrams | Skipgrams | Words

text \<open>
  \<^verbatim>\<open>Number.prototype.toString\<close> and template interpolation of a non-negative integer below
  \<open>10^21\<close>: its decimal digits.
\<close>

definition digit :: "nat \<Rightarrow> jschar" where
  "digit d = of_nat (48 + d)"

fun decimal :: "nat \<Rightarrow> jsstring" where
  "decimal n = (if n < 10 then [digit n] else decimal (n div 10) @ [digit (n mod 10)])"



















text \<open>A decimal digit.\<close>

definition is_digit :: "jschar \<Rightarrow> bool" where
  "is_digit c \<longleftrightarrow> 0x30 \<le> c \<and> c \<le> 0x39"

text \<open>The number a string of decimal digits denotes.\<close>

definition digit_value :: "jschar \<Rightarrow> nat" where
  "digit_value c = unat c - 48"







section \<open>The locator-state consumer: \<^verbatim>\<open>serializeState\<close> and \<^verbatim>\<open>deserializeState\<close>\<close>

text \<open>
  The state of the explorer, without the analysis results, which the locator never holds.
  The field \<^verbatim>\<open>text\<close> of the corpus is \<open>corpus_text\<close> here.
\<close>

record CorpusData =
  name :: jsstring
  corpus_text :: jsstring
  isCustom :: bool

record SearchSettings =
  query :: jsstring
  useRegex :: bool
  filters :: FilterSettings
  limit :: nat

record CorpusExplorerState =
  corpus :: "CorpusData option"
  search :: SearchSettings
  selectedNGramType :: NGramType

text \<open>
  \<^verbatim>\<open>Partial<CorpusExplorerState>\<close>: every field may be absent; the corpus may also be
  \<^verbatim>\<open>null\<close>.
\<close>

record PartialState =
  corpus_opt :: "CorpusData option option"
  search_opt :: "SearchSettings option"
  selectedNGramType_opt :: "NGramType option"

definition as_partial :: "CorpusExplorerState \<Rightarrow> PartialState" where
  "as_partial state =
     \<lparr>corpus_opt = Some (corpus state), search_opt = Some (search state),
      selectedNGramType_opt = Some (selectedNGramType state)\<rparr>"

definition type_string :: "NGramType \<Rightarrow> jsstring" where
  "type_string type =
     (case type of
        Monograms \<Rightarrow> ascii ''monograms''
      | Bigrams \<Rightarrow> ascii ''bigrams''
      | Trigrams \<Rightarrow> ascii ''trigrams''
      | Skipgrams \<Rightarrow> ascii ''skipgrams''
      | Words \<Rightarrow> ascii ''words'')"

text \<open>
  \<^verbatim>\<open>URLSearchParams\<close> holds scalar value strings: \<^verbatim>\<open>set\<close> replaces every unpaired
  surrogate of the value by U+FFFD. Only \<^verbatim>\<open>set\<close> and \<^verbatim>\<open>get\<close> are used, on fixed names, so
  the parameters are a map from names to values.
\<close>

definition is_surrogate :: "jschar \<Rightarrow> bool" where
  "is_surrogate c \<longleftrightarrow> 0xD800 \<le> c \<and> c \<le> 0xDFFF"

definition is_lead :: "jschar \<Rightarrow> bool" where
  "is_lead c \<longleftrightarrow> 0xD800 \<le> c \<and> c \<le> 0xDBFF"

definition is_trail :: "jschar \<Rightarrow> bool" where
  "is_trail c \<longleftrightarrow> 0xDC00 \<le> c \<and> c \<le> 0xDFFF"

fun toUSVString :: "jsstring \<Rightarrow> jsstring" where
  "toUSVString [] = []"
| "toUSVString [c] = (if is_surrogate c then [0xFFFD] else [c])"
| "toUSVString (c # d # cs) =
     (if is_lead c \<and> is_trail d then c # d # toUSVString cs
      else if is_surrogate c then 0xFFFD # toUSVString (d # cs)
      else c # toUSVString (d # cs))"

type_synonym URLSearchParams = "string \<Rightarrow> jsstring option"

definition params_set :: "URLSearchParams \<Rightarrow> string \<Rightarrow> jsstring \<Rightarrow> URLSearchParams" where
  "params_set params k v = params(k \<mapsto> toUSVString v)"

definition params_get :: "URLSearchParams \<Rightarrow> string \<Rightarrow> jsstring option" where
  "params_get params k = params k"

text \<open>\<^verbatim>\<open>if (b) params.set(k, v)\<close>\<close>

definition set_if :: "bool \<Rightarrow> string \<Rightarrow> jsstring \<Rightarrow> URLSearchParams \<Rightarrow> URLSearchParams" where
  "set_if b k v params = (if b then params_set params k v else params)"

definition serializeState :: "PartialState \<Rightarrow> URLSearchParams" where
  "serializeState state =
     (let params = Map.empty;
          params =
            (case corpus_opt state of
               Some (Some c) \<Rightarrow>
                 if isCustom c then params_set params ''corpus'' (ascii ''custom'')
                 else params_set params ''corpus'' (name c)
             | _ \<Rightarrow> params);
          params =
            (case selectedNGramType_opt state of
               Some t \<Rightarrow> set_if (t \<noteq> Bigrams) ''type'' (type_string t) params
             | None \<Rightarrow> params)
      in case search_opt state of
           Some s \<Rightarrow>
             (let params = set_if (limit s > 0) ''limit'' (decimal (limit s)) params;
                  params = set_if (query s \<noteq> []) ''search'' (query s) params;
                  params = set_if (useRegex s) ''regex'' (ascii ''true'') params;
                  params = set_if (\<not> filterWhitespace (filters s)) ''whitespace'' (ascii ''false'') params;
                  params = set_if (filterPunctuation (filters s)) ''punct'' (ascii ''true'') params;
                  params = set_if (caseSensitive (filters s)) ''case'' (ascii ''true'') params
              in params)
         | None \<Rightarrow> params)"

text \<open>
  \<^verbatim>\<open>parseInt(string, 10)\<close>: leading whitespace is skipped, a sign is read, then the longest
  run of decimal digits; \<^verbatim>\<open>NaN\<close> (\<open>None\<close>) when there is no digit.
\<close>

definition parseInt10 :: "jsstring \<Rightarrow> int option" where
  "parseInt10 string =
     (let s = dropWhile regex_s string;
          sign = (if s \<noteq> [] \<and> hd s = 0x2D then - 1 else 1);
          s = (if s \<noteq> [] \<and> (hd s = 0x2B \<or> hd s = 0x2D) then tl s else s);
          z = takeWhile is_digit s
      in if z = [] then None
         else Some (sign * int (foldl (\<lambda>a c. 10 * a + digit_value c) 0 z)))"

text \<open>
  \<^verbatim>\<open>validTypes.includes(typeParam)\<close>, with
  \<^verbatim>\<open>validTypes = ['monograms', 'bigrams', 'trigrams', 'words']\<close>.
\<close>

definition parse_type :: "jsstring \<Rightarrow> NGramType option" where
  "parse_type typeParam =
     (if typeParam = ascii ''monograms'' then Some Monograms
      else if typeParam = ascii ''bigrams'' then Some Bigrams
      else if typeParam = ascii ''trigrams'' then Some Trigrams
      else if typeParam = ascii ''words'' then Some Words
      else None)"

text \<open>The objects \<^verbatim>\<open>searchSettings\<close> and \<^verbatim>\<open>filters\<close> that \<^verbatim>\<open>deserializeState\<close> fills.\<close>

record PartialSearchSettings =
  query_opt :: "jsstring option"
  useRegex_opt :: "bool option"
  limit_opt :: "nat option"

record PartialFilterSettings =
  filterWhitespace_opt :: "bool option"
  filterPunctuation_opt :: "bool option"
  caseSensitive_opt :: "bool option"

definition deserializeState :: "URLSearchParams \<Rightarrow> PartialState" where
  "deserializeState params =
     (let corpus' =
            (case params_get params ''corpus'' of
               None \<Rightarrow> None
             | Some corpusParam \<Rightarrow>
                 if corpusParam = [] then None
                 else if corpusParam = ascii ''custom'' then Some None
                 else Some (Some \<lparr>name = corpusParam, corpus_text = [], isCustom = False\<rparr>));
          type' =
            (case params_get params ''type'' of
               None \<Rightarrow> None
             | Some typeParam \<Rightarrow> if typeParam = [] then None else parse_type typeParam);
          limit' =
            (case params_get params ''limit'' of
               None \<Rightarrow> None
             | Some limitParam \<Rightarrow>
                 if limitParam = [] then None
                 else (case parseInt10 limitParam of
                         None \<Rightarrow> None
                       | Some l \<Rightarrow> if l > 0 then Some (nat l) else None));
          searchSettings =
            \<lparr>query_opt = params_get params ''search'',
             useRegex_opt = (if params_get params ''regex'' = Some (ascii ''true'') then Some True else None),
             limit_opt = limit'\<rparr>;
          filters' =
            \<lparr>filterWhitespace_opt =
               (if params_get params ''whitespace'' = Some (ascii ''false'') then Some False else None),
             filterPunctuation_opt =
               (if params_get params ''punct'' = Some (ascii ''true'') then Some True else None),
             caseSensitive_opt =
               (if params_get params ''case'' = Some (ascii ''true'') then Some True else None)\<rparr>;
          search' =
            (if query_opt searchSettings \<noteq> None \<or> useRegex_opt searchSettings \<noteq> None \<or>
                limit_opt searchSettings \<noteq> None \<or>
                filterWhitespace_opt filters' \<noteq> None \<or> filterPunctuation_opt filters' \<noteq> None \<or>
                caseSensitive_opt filters' \<noteq> None
             then Some
               \<lparr>query = (case query_opt searchSettings of Some q \<Rightarrow> q | None \<Rightarrow> []),
                useRegex = (case useRegex_opt searchSettings of Some r \<Rightarrow> r | None \<Rightarrow> False),
                filters =
                  \<lparr>filterWhitespace =
                     (case filterWhitespace_opt filters' of Some b \<Rightarrow> b | None \<Rightarrow> True),
                   filterPunctuation =
                     (case filterPunctuation_opt filters' of Some b \<Rightarrow> b | None \<Rightarrow> False),
                   caseSensitive =
                     (case caseSensitive_opt filters' of Some b \<Rightarrow> b | None \<Rightarrow> False)\<rparr>,
                limit = (case limit_opt searchSettings of Some l \<Rightarrow> l | None \<Rightarrow> 0)\<rparr>
             else None)
      in \<lparr>corpus_opt = corpus', search_opt = search', selectedNGramType_opt = type'\<rparr>)"

text \<open>
  The state a page starts with, and the merge of the state read from the locator into it
  (\<^verbatim>\<open>initializeCorpusExplorer\<close>): a restored \<^verbatim>\<open>search\<close> has all its fields, so the
  spread replaces the current one.
\<close>

definition initial_state :: CorpusExplorerState where
  "initial_state =
     \<lparr>corpus = None,
      search = \<lparr>query = [], useRegex = False,
                filters = \<lparr>filterWhitespace = True, filterPunctuation = False,
                            caseSensitive = False\<rparr>,
                limit = 0\<rparr>,
      selectedNGramType = Bigrams\<rparr>"

definition apply_url_state :: "CorpusExplorerState \<Rightarrow> PartialState \<Rightarrow> CorpusExplorerState" where
  "apply_url_state currentState urlState =
     (let currentState =
            (case selectedNGramType_opt urlState of
               Some t \<Rightarrow> currentState\<lparr>selectedNGramType := t\<rparr>
             | None \<Rightarrow> currentState)
      in case search_opt urlState of
           Some s \<Rightarrow> currentState\<lparr>search := s\<rparr>
         | None \<Rightarrow> currentState)"

section \<open>Facts about maps\<close>

lemma sum_counts_update:
  "sum_counts (AList.update k v m) + or0 (map_of m k) = sum_counts m + v"
  by (induction m) (auto simp: sum_counts_def or0_def)

lemma sum_counts_increment: "sum_counts (increment m k) = Suc (sum_counts m)"
  using sum_counts_update [of k "or0 (map_of m k) + 1" m]
  by (simp add: increment_def Map_set_def Map_get_def)

lemma sum_counts_Nil: "sum_counts [] = 0"
  by (simp add: sum_counts_def)

lemma set_update_subset: "set (AList.update k v m) \<subseteq> insert (k, v) (set m)"
  by (induction m) auto

lemma or0_increment:
  "or0 (Map_get (increment m k) w) = or0 (Map_get m w) + (if w = k then 1 else 0)"
  by (simp add: increment_def Map_set_def Map_get_def update_conv' or0_def)

lemma update_fresh: "k \<notin> fst ` set m \<Longrightarrow> AList.update k v m = m @ [(k, v)]"
  by (induction m) auto

lemma map_of_fresh: "k \<notin> fst ` set m \<Longrightarrow> or0 (map_of m k) = 0"
  by (induction m) (auto simp: or0_def)

section \<open>The loop, field by field\<close>

lemma scan_0: "scan text 0 = scan_init"
  by (simp add: scan_def)

lemma scan_Suc: "scan text (Suc n) = loop_body text n (scan text n)"
  by (simp add: scan_def)

lemma monograms_loop_body:
  "monograms (loop_body text i st) = increment (monograms st) [text ! i]"
  by (simp add: loop_body_def Let_def)

lemma bigrams_loop_body:
  "bigrams (loop_body text i st) =
     (if i + 1 < length text then increment (bigrams st) [text ! i, text ! (i + 1)]
      else bigrams st)"
  by (simp add: loop_body_def Let_def)

lemma trigrams_loop_body:
  "trigrams (loop_body text i st) =
     (if i + 2 < length text
      then increment (trigrams st) [text ! i, text ! (i + 1), text ! (i + 2)]
      else trigrams st)"
  by (simp add: loop_body_def Let_def)

lemma skipgrams_loop_body:
  "skipgrams (loop_body text i st) =
     (if i + 2 < length text then increment (skipgrams st) [text ! i, text ! (i + 2)]
      else skipgrams st)"
  by (simp add: loop_body_def Let_def)

lemma words_loop_body:
  "words (loop_body text i st) =
     (if isWhitespace (text ! i) \<and> currentWord st \<noteq> []
      then increment (words st) (currentWord st) else words st)"
  by (simp add: loop_body_def Let_def)

lemma currentWord_loop_body:
  "currentWord (loop_body text i st) =
     (if isWhitespace (text ! i) then [] else currentWord st @ [text ! i])"
  by (simp add: loop_body_def Let_def)

lemmas loop_body_fields =
  monograms_loop_body bigrams_loop_body trigrams_loop_body skipgrams_loop_body
  words_loop_body currentWord_loop_body

lemma scan_init_fields:
  "monograms scan_init = []" "bigrams scan_init = []" "trigrams scan_init = []"
  "skipgrams scan_init = []" "words scan_init = []" "currentWord scan_init = []"
  by (simp_all add: scan_init_def)

lemma calculateNGrams_fields:
  "monograms (calculateNGrams text) = monograms (scan text (length text))"
  "bigrams (calculateNGrams text) = bigrams (scan text (length text))"
  "trigrams (calculateNGrams text) = trigrams (scan text (length text))"
  "skipgrams (calculateNGrams text) = skipgrams (scan text (length text))"
  "words (calculateNGrams text) =
     (if currentWord (scan text (length text)) \<noteq> []
      then increment (words (scan text (length text))) (currentWord (scan text (length text)))
      else words (scan text (length text)))"
  by (simp_all add: calculateNGrams_def Let_def)

section \<open>Sums of the raw counts\<close>

lemma sum_monograms_scan: "sum_counts (monograms (scan text n)) = n"
  by (induction n)
    (simp_all add: scan_0 scan_Suc scan_init_fields loop_body_fields sum_counts_Nil
      sum_counts_increment)

lemma sum_bigrams_scan:
  "n \<le> length text \<Longrightarrow> sum_counts (bigrams (scan text n)) = min n (length text - 1)"
  by (induction n)
    (auto simp: scan_0 scan_Suc scan_init_fields loop_body_fields sum_counts_Nil
      sum_counts_increment)

lemma sum_trigrams_scan:
  "n \<le> length text \<Longrightarrow> sum_counts (trigrams (scan text n)) = min n (length text - 2)"
  by (induction n)
    (auto simp: scan_0 scan_Suc scan_init_fields loop_body_fields sum_counts_Nil
      sum_counts_increment)

lemma sum_skipgrams_scan:
  "n \<le> length text \<Longrightarrow> sum_counts (skipgrams (scan text n)) = min n (length text - 2)"
  by (induction n)
    (auto simp: scan_0 scan_Suc scan_init_fields loop_body_fields sum_counts_Nil
      sum_counts_increment)

text \<open>
  Claim C4. The counts of the raw monogram table add up to the length of the text; those
  of the raw bigram table to the length minus one, and to 0 for a text shorter than 2;
  those of the raw trigram table and of the raw skipgram table to the length minus two,
  and to 0 for a text shorter than 3. The empty text gives five empty tables.
\<close>

theorem C4_raw_count_sums:
  "sum_counts (monograms (calculateNGrams text)) = length text \<and>
   sum_counts (bigrams (calculateNGrams text)) =
     (if length text < 2 then 0 else length text - 1) \<and>
   sum_counts (trigrams (calculateNGrams text)) =
     (if length text < 3 then 0 else length text - 2) \<and>
   sum_counts (skipgrams (calculateNGrams text)) =
     (if length text < 3 then 0 else length text - 2) \<and>
   calculateNGrams [] =
     \<lparr>monograms = [], bigrams = [], trigrams = [], skipgrams = [], words = []\<rparr>"
proof -
  have "calculateNGrams [] =
     \<lparr>monograms = [], bigrams = [], trigrams = [], skipgrams = [], words = []\<rparr>"
    by (simp add: calculateNGrams_def scan_0 scan_init_def)
  then show ?thesis
    by (simp add: calculateNGrams_fields sum_monograms_scan sum_bigrams_scan
        sum_trigrams_scan sum_skipgrams_scan)
qed

section \<open>Shapes of the raw keys\<close>

lemma table_ok_Nil: "table_ok P []"
  by (simp add: table_ok_def)

lemma table_ok_increment: "table_ok P m \<Longrightarrow> P k \<Longrightarrow> table_ok P (increment m k)"
  using set_update_subset [of k "or0 (map_of m k) + 1" m]
  by (auto simp: table_ok_def increment_def Map_set_def Map_get_def list_all_iff)

lemma distinct_increment:
  "distinct (map fst m) \<Longrightarrow> distinct (map fst (increment m k))"
  by (simp add: increment_def Map_set_def distinct_update)

lemma table_ok_monograms_scan: "table_ok (\<lambda>k. length k = 1) (monograms (scan text n))"
  by (induction n)
    (simp_all add: scan_0 scan_Suc scan_init_fields loop_body_fields table_ok_Nil
      table_ok_increment)

lemma table_ok_bigrams_scan: "table_ok (\<lambda>k. length k = 2) (bigrams (scan text n))"
  by (induction n)
    (simp_all add: scan_0 scan_Suc scan_init_fields loop_body_fields table_ok_Nil
      table_ok_increment)

lemma table_ok_trigrams_scan: "table_ok (\<lambda>k. length k = 3) (trigrams (scan text n))"
  by (induction n)
    (simp_all add: scan_0 scan_Suc scan_init_fields loop_body_fields table_ok_Nil
      table_ok_increment)

lemma table_ok_skipgrams_scan: "table_ok (\<lambda>k. length k = 2) (skipgrams (scan text n))"
  by (induction n)
    (simp_all add: scan_0 scan_Suc scan_init_fields loop_body_fields table_ok_Nil
      table_ok_increment)

lemma currentWord_scan_no_ws: "\<not> containsWhitespace (currentWord (scan text n))"
  by (induction n)
    (simp_all add: scan_0 scan_Suc scan_init_fields loop_body_fields containsWhitespace_def
      isWhitespace_def)

lemma table_ok_words_scan:
  "table_ok (\<lambda>k. k \<noteq> [] \<and> \<not> containsWhitespace k) (words (scan text n))"
  by (induction n)
    (simp_all add: scan_0 scan_Suc scan_init_fields loop_body_fields table_ok_Nil
      table_ok_increment currentWord_scan_no_ws)

lemma table_ok_words_calculateNGrams:
  "table_ok (\<lambda>k. k \<noteq> [] \<and> \<not> containsWhitespace k) (words (calculateNGrams text))"
  unfolding calculateNGrams_fields
  by (simp add: table_ok_words_scan table_ok_increment currentWord_scan_no_ws)

text \<open>
  Claim C10. In the raw tables of the scanner every monogram key has length 1, every
  bigram key length 2, every trigram key length 3, every skipgram key length 2, every
  word key is non-empty and has no whitespace code unit, and every stored count is at
  least 1.
\<close>

theorem C10_raw_key_shapes:
  "table_ok (\<lambda>k. length k = 1) (monograms (calculateNGrams text)) \<and>
   table_ok (\<lambda>k. length k = 2) (bigrams (calculateNGrams text)) \<and>
   table_ok (\<lambda>k. length k = 3) (trigrams (calculateNGrams text)) \<and>
   table_ok (\<lambda>k. length k = 2) (skipgrams (calculateNGrams text)) \<and>
   table_ok (\<lambda>k. k \<noteq> [] \<and> \<not> containsWhitespace k) (words (calculateNGrams text))"
proof (intro conjI)
  show "table_ok (\<lambda>k. length k = 1) (monograms (calculateNGrams text))"
    unfolding calculateNGrams_fields by (rule table_ok_monograms_scan)
  show "table_ok (\<lambda>k. length k = 2) (bigrams (calculateNGrams text))"
    unfolding calculateNGrams_fields by (rule table_ok_bigrams_scan)
  show "table_ok (\<lambda>k. length k = 3) (trigrams (calculateNGrams text))"
    unfolding calculateNGrams_fields by (rule table_ok_trigrams_scan)
  show "table_ok (\<lambda>k. length k = 2) (skipgrams (calculateNGrams text))"
    unfolding calculateNGrams_fields by (rule table_ok_skipgrams_scan)
  show "table_ok (\<lambda>k. k \<noteq> [] \<and> \<not> containsWhitespace k) (words (calculateNGrams text))"
    by (rule table_ok_words_calculateNGrams)
qed

theorem C10_witness:
  "table_ok (\<lambda>k. length k = 1) [([0x61], 2), ([0x62], 2), ([0x20], 1)] \<and>
   table_ok (\<lambda>k. k \<noteq> [] \<and> \<not> containsWhitespace k) [([0x61, 0x62], 2)]"
proof -
  have "calculateNGrams [0x61, 0x62, 0x20, 0x61, 0x62] =
     \<lparr>monograms = [([0x61], 2), ([0x62], 2), ([0x20], 1)],
      bigrams = [([0x61, 0x62], 2), ([0x62, 0x20], 1), ([0x20, 0x61], 1)],
      trigrams = [([0x61, 0x62, 0x20], 1), ([0x62, 0x20, 0x61], 1), ([0x20, 0x61, 0x62], 1)],
      skipgrams = [([0x61, 0x20], 1), ([0x62, 0x61], 1), ([0x20, 0x62], 1)],
      words = [([0x61, 0x62], 2)]\<rparr>"
    by code_simp
  with C10_raw_key_shapes [of "[0x61, 0x62, 0x20, 0x61, 0x62]"] show ?thesis
    by simp
qed

section \<open>The word table counts the whitespace-separated tokens\<close>

lemma splitWhitespace_nonempty: "splitWhitespace text \<noteq> []"
  by (induction "text") (auto split: list.splits)

lemma splitWhitespace_snoc:
  "splitWhitespace (p @ [c]) =
     (if regex_s c then splitWhitespace p @ [[]]
      else butlast (splitWhitespace p) @ [last (splitWhitespace p) @ [c]])"
proof (induction p)
  case Nil
  then show ?case by simp
next
  case (Cons a p)
  obtain t ts where ts: "splitWhitespace p = t # ts"
    using splitWhitespace_nonempty [of p] by (cases "splitWhitespace p") auto
  show ?case
  proof (cases "regex_s c")
    case True
    with Cons ts show ?thesis by simp
  next
    case False
    with Cons ts show ?thesis
      by (cases ts) (auto simp: splitWhitespace_nonempty)
  qed
qed

lemma filter_butlast_last:
  "xs \<noteq> [] \<Longrightarrow> filter P xs = filter P (butlast xs) @ (if P (last xs) then [last xs] else [])"
  by (induction xs) auto

lemma completed_snoc:
  "completed (p @ [c]) =
     (if regex_s c
      then completed p @ (if last (splitWhitespace p) = [] then [] else [last (splitWhitespace p)])
      else completed p)"
  using splitWhitespace_nonempty [of p]
    filter_butlast_last [of "splitWhitespace p" "\<lambda>t. t \<noteq> []"]
  by (simp add: completed_def splitWhitespace_snoc butlast_append)

lemma last_splitWhitespace_snoc:
  "last (splitWhitespace (p @ [c])) = (if regex_s c then [] else last (splitWhitespace p) @ [c])"
  by (simp add: splitWhitespace_snoc)

lemma tokens_completed:
  "tokens p = completed p @ (if last (splitWhitespace p) = [] then [] else [last (splitWhitespace p)])"
  using splitWhitespace_nonempty [of p]
    filter_butlast_last [of "splitWhitespace p" "\<lambda>t. t \<noteq> []"]
  by (simp add: completed_def tokens_def)

lemma currentWord_scan:
  "n \<le> length text \<Longrightarrow> currentWord (scan text n) = last (splitWhitespace (take n text))"
proof (induction n)
  case 0
  then show ?case by (simp add: scan_0 scan_init_fields)
next
  case (Suc n)
  then show ?case
    by (simp add: scan_Suc loop_body_fields take_Suc_conv_app_nth last_splitWhitespace_snoc
        isWhitespace_def)
qed

lemma words_scan:
  "n \<le> length text \<Longrightarrow>
     or0 (Map_get (words (scan text n)) w) = count_list (completed (take n text)) w"
proof (induction n)
  case 0
  then show ?case by (simp add: scan_0 scan_init_fields completed_def Map_get_def or0_def)
next
  case (Suc n)
  then show ?case
    by (simp add: scan_Suc loop_body_fields take_Suc_conv_app_nth completed_snoc
        isWhitespace_def or0_increment currentWord_scan)
qed

lemma words_calculateNGrams:
  "or0 (Map_get (words (calculateNGrams text)) w) = count_list (tokens text) w"
  by (simp add: calculateNGrams_fields tokens_completed or0_increment
      words_scan [of "length text" "text"] currentWord_scan [of "length text" "text"])

lemma table_ok_get:
  "table_ok P m \<Longrightarrow> Map_get m w = (if or0 (Map_get m w) = 0 then None else Some (or0 (Map_get m w)))"
  by (cases "map_of m w")
    (auto simp: table_ok_def Map_get_def or0_def list_all_iff dest!: map_of_SomeD)

text \<open>
  Claim C5. For every text and every string \<open>w\<close>, the raw word table holds for \<open>w\<close> the
  number of non-empty tokens equal to \<open>w\<close> among those obtained by splitting the text on
  whitespace (no entry when there is none), the last token included when the text does
  not end in whitespace.
\<close>

theorem C5_word_table:
  "Map_get (words (calculateNGrams text)) w =
     (if count_list (tokens text) w = 0 then None else Some (count_list (tokens text) w))"
proof -
  have ok: "table_ok (\<lambda>k. k \<noteq> [] \<and> \<not> containsWhitespace k) (words (calculateNGrams text))"
    by (rule table_ok_words_calculateNGrams)
  from table_ok_get [OF ok, of w] show ?thesis
    unfolding words_calculateNGrams .
qed

section \<open>Filtering and re-aggregation\<close>

lemma filter_entry_cases:
  "filter_entry lower fs (k, c) acc =
     (if passes fs k
      then \<lparr>cmap = AList.update (normalizeSequence lower k (caseSensitive fs))
                    (or0 (map_of (cmap acc) (normalizeSequence lower k (caseSensitive fs))) + c)
                    (cmap acc),
            ctotal = ctotal acc + c\<rparr>
      else acc)"
  by (simp add: filter_entry_def passes_def Let_def Map_set_def Map_get_def)

lemma fold_filter_entry_total:
  "ctotal (fold (filter_entry lower fs) counts acc) =
     ctotal acc + sum_counts (survivors fs counts)"
  by (induction counts arbitrary: acc)
    (auto simp: filter_entry_cases survivors_def sum_counts_def)

lemma fold_filter_entry_sum:
  "sum_counts (cmap (fold (filter_entry lower fs) counts acc)) =
     sum_counts (cmap acc) + sum_counts (survivors fs counts)"
proof (induction counts arbitrary: acc)
  case Nil
  then show ?case by (simp add: survivors_def sum_counts_def)
next
  case (Cons e counts)
  obtain k c where e: "e = (k, c)" by (cases e)
  show ?case
    using sum_counts_update [of "normalizeSequence lower k (caseSensitive fs)"
        "or0 (map_of (cmap acc) (normalizeSequence lower k (caseSensitive fs))) + c" "cmap acc"]
    by (simp add: Cons.IH e filter_entry_cases survivors_def) (simp add: sum_counts_def)
qed

lemma total_filterAndReaggregate:
  "ctotal (filterAndReaggregate lower counts fs) = sum_counts (survivors fs counts)"
  by (simp add: filterAndReaggregate_def fold_filter_entry_total)

lemma sum_filterAndReaggregate:
  "sum_counts (cmap (filterAndReaggregate lower counts fs)) =
     ctotal (filterAndReaggregate lower counts fs)"
  by (simp add: filterAndReaggregate_def fold_filter_entry_total fold_filter_entry_sum
      sum_counts_Nil)

lemma fold_filter_entry_identity:
  "distinct (map fst (m @ counts)) \<Longrightarrow>
   \<not> filterWhitespace fs \<Longrightarrow> \<not> filterPunctuation fs \<Longrightarrow> caseSensitive fs \<Longrightarrow>
   fold (filter_entry lower fs) counts \<lparr>cmap = m, ctotal = t\<rparr> =
     \<lparr>cmap = m @ counts, ctotal = t + sum_counts counts\<rparr>"
proof (induction counts arbitrary: m t)
  case Nil
  then show ?case by (simp add: sum_counts_def)
next
  case (Cons e counts)
  obtain k c where e: "e = (k, c)" by (cases e)
  from Cons.prems(1) have fresh: "k \<notin> fst ` set m" and d: "distinct (map fst ((m @ [(k, c)]) @ counts))"
    by (auto simp: e)
  have step: "filter_entry lower fs e \<lparr>cmap = m, ctotal = t\<rparr> = \<lparr>cmap = m @ [(k, c)], ctotal = t + c\<rparr>"
    using Cons.prems(2-4) fresh
    by (simp add: e filter_entry_cases passes_def normalizeSequence_def update_fresh map_of_fresh)
  show ?case
    using Cons.IH [OF d Cons.prems(2-4), of "t + c"]
    by (simp add: step) (simp add: e sum_counts_def)
qed

text \<open>
  Claim C9. On a raw table (a map: its keys are distinct) the filter and re-aggregation
  step with \<open>filterWhitespace = false\<close>, \<open>filterPunctuation = false\<close> and
  \<open>caseSensitive = true\<close> returns the table's pairs unchanged, in the same order, and the
  sum of all its counts as the total.
\<close>

theorem C9_filter_identity:
  assumes "distinct (map fst counts)"
  shows "filterAndReaggregate toLowerCase counts
           \<lparr>filterWhitespace = False, filterPunctuation = False, caseSensitive = True\<rparr> =
         \<lparr>cmap = counts, ctotal = sum_counts counts\<rparr>"
  using fold_filter_entry_identity [of "[]" counts
      "\<lparr>filterWhitespace = False, filterPunctuation = False, caseSensitive = True\<rparr>" toLowerCase 0]
    assms
  by (simp add: filterAndReaggregate_def)

theorem C9_witness:
  "distinct (map fst [([0x61::jschar], 2::nat), ([0x41], 1)]) \<and>
   filterAndReaggregate sample_toLowerCase [([0x61], 2), ([0x41], 1)]
     \<lparr>filterWhitespace = False, filterPunctuation = False, caseSensitive = True\<rparr> =
   \<lparr>cmap = [([0x61], 2), ([0x41], 1)], ctotal = 3\<rparr>"
proof -
  have d: "distinct (map fst [([0x61::jschar], 2::nat), ([0x41], 1)])"
    by simp
  from C9_filter_identity [OF d, of sample_toLowerCase] d show ?thesis
    by (simp add: sum_counts_def)
qed

section \<open>The punctuation filter\<close>

text \<open>
  Claim C3. With the punctuation filter on, a raw pair is to be discarded exactly when
  its key has a character that is neither alphanumeric nor whitespace: a key with a
  non-ASCII letter survives and a key with an underscore does not. The source documents
  \<^verbatim>\<open>containsPunctuation\<close> as ``Check if a sequence contains punctuation characters'' and
  the filter as discarding ``sequences with punctuation''. The code does the opposite at
  both points: on the raw table of the keys \<^verbatim>\<open>_\<close> and U+00E9, each counted once, it keeps
  the underscore, which is neither a letter, a digit nor whitespace, and discards the
  letter.
\<close>

theorem C3_underscore_kept_letter_discarded:
  "filterAndReaggregate sample_toLowerCase [([0x5F], 1), ([0xE9], 1)]
     \<lparr>filterWhitespace = True, filterPunctuation = True, caseSensitive = False\<rparr> =
   \<lparr>cmap = [([0x5F], 1)], ctotal = 1\<rparr> \<and>
   \<not> alphanumeric 0x5F \<and> \<not> regex_s 0x5F \<and> alphanumeric 0xE9"
  by (simp add: filterAndReaggregate_def filter_entry_def containsWhitespace_def
      containsPunctuation_def regex_s_def regex_w_def alphanumeric_def normalizeSequence_def
      sample_toLowerCase_def lower_unit_def Map_set_def Map_get_def or0_def Let_def)

section \<open>Totals of the ranked lists\<close>

lemma sum_insort_cmp:
  "sum_list (map f (insort_cmp cmp x xs)) = (f x :: nat) + sum_list (map f xs)"
  by (induction xs) auto

lemma sum_array_sort:
  "sum_list (map f (array_sort cmp xs)) = (sum_list (map f xs) :: nat)"
  by (induction xs) (simp_all add: array_sort_def sum_insort_cmp)

lemma frequency_ranked:
  "map frequency (map (\<lambda>(index, (sequence, frequency)).
       \<lparr>sequence = sequence, frequency = frequency, rank = index + 1\<rparr>) (enumerate n es)) =
   map snd es"
  by (induction es arbitrary: n) (auto split: prod.splits)

lemma sum_frequency_mapToRankedArray:
  "sum_frequency (mapToRankedArray lc cm) = sum_counts (cmap cm)"
  unfolding sum_frequency_def mapToRankedArray_def Let_def frequency_ranked
  by (simp add: sum_array_sort sum_counts_def)

lemma sum_frequency_filtered:
  "sum_frequency (mapToRankedArray lc (filterAndReaggregate lower counts fs)) =
     ctotal (filterAndReaggregate lower counts fs)"
  by (simp add: sum_frequency_mapToRankedArray sum_filterAndReaggregate)

lemma calculateFilteredNGrams_fields:
  "monograms (calculateFilteredNGrams lower lc text fs) =
     mapToRankedArray lc (filterAndReaggregate lower (monograms (calculateNGrams text)) fs)"
  "bigrams (calculateFilteredNGrams lower lc text fs) =
     mapToRankedArray lc (filterAndReaggregate lower (bigrams (calculateNGrams text)) fs)"
  "trigrams (calculateFilteredNGrams lower lc text fs) =
     mapToRankedArray lc (filterAndReaggregate lower (trigrams (calculateNGrams text)) fs)"
  "skipgrams (calculateFilteredNGrams lower lc text fs) =
     mapToRankedArray lc (filterAndReaggregate lower (skipgrams (calculateNGrams text)) fs)"
  "words (calculateFilteredNGrams lower lc text fs) =
     mapToRankedArray lc (filterAndReaggregate lower (words (calculateNGrams text)) fs)"
  "monograms (totals (calculateFilteredNGrams lower lc text fs)) =
     ctotal (filterAndReaggregate lower (monograms (calculateNGrams text)) fs)"
  "bigrams (totals (calculateFilteredNGrams lower lc text fs)) =
     ctotal (filterAndReaggregate lower (bigrams (calculateNGrams text)) fs)"
  "trigrams (totals (calculateFilteredNGrams lower lc text fs)) =
     ctotal (filterAndReaggregate lower (trigrams (calculateNGrams text)) fs)"
  "skipgrams (totals (calculateFilteredNGrams lower lc text fs)) =
     ctotal (filterAndReaggregate lower (skipgrams (calculateNGrams text)) fs)"
  "words (totals (calculateFilteredNGrams lower lc text fs)) =
     ctotal (filterAndReaggregate lower (words (calculateNGrams text)) fs)"
  by (simp_all add: calculateFilteredNGrams_def Let_def)

text \<open>
  Claim C1. For every text and all filter settings, the frequencies of each of the five
  ranked lists returned by \<^verbatim>\<open>calculateFilteredNGrams\<close> add up to the matching entry of
  \<open>totals\<close>, and that entry is the sum of the counts of the raw pairs that pass the
  whitespace and punctuation filters, taken before the keys are normalized.
\<close>

theorem C1_sum_frequency_is_total:
  "sum_frequency (monograms (calculateFilteredNGrams toLowerCase localeCompare text fs)) =
     monograms (totals (calculateFilteredNGrams toLowerCase localeCompare text fs)) \<and>
   sum_frequency (bigrams (calculateFilteredNGrams toLowerCase localeCompare text fs)) =
     bigrams (totals (calculateFilteredNGrams toLowerCase localeCompare text fs)) \<and>
   sum_frequency (trigrams (calculateFilteredNGrams toLowerCase localeCompare text fs)) =
     trigrams (totals (calculateFilteredNGrams toLowerCase localeCompare text fs)) \<and>
   sum_frequency (skipgrams (calculateFilteredNGrams toLowerCase localeCompare text fs)) =
     skipgrams (totals (calculateFilteredNGrams toLowerCase localeCompare text fs)) \<and>
   sum_frequency (words (calculateFilteredNGrams toLowerCase localeCompare text fs)) =
     words (totals (calculateFilteredNGrams toLowerCase localeCompare text fs)) \<and>
   totals (calculateFilteredNGrams toLowerCase localeCompare text fs) =
     \<lparr>monograms = sum_counts (survivors fs (monograms (calculateNGrams text))),
      bigrams = sum_counts (survivors fs (bigrams (calculateNGrams text))),
      trigrams = sum_counts (survivors fs (trigrams (calculateNGrams text))),
      skipgrams = sum_counts (survivors fs (skipgrams (calculateNGrams text))),
      words = sum_counts (survivors fs (words (calculateNGrams text)))\<rparr>"
  by (simp add: calculateFilteredNGrams_def Let_def sum_frequency_filtered
      total_filterAndReaggregate)

section \<open>Sorting with a consistent comparator\<close>

lemma consistent_sample_localeCompare: "consistent sample_localeCompare"
  by (auto simp: consistent_def sample_localeCompare_def)

lemma consistentD1: "consistent cmp \<Longrightarrow> cmp a b < 0 \<longleftrightarrow> 0 < cmp b a"
  by (simp add: consistent_def)

lemma consistent_refl: "consistent cmp \<Longrightarrow> cmp a a = 0"
  using consistentD1 [of cmp a a] by auto

lemma consistent_total: "consistent cmp \<Longrightarrow> cmp a b \<le> 0 \<or> cmp b a \<le> 0"
  using consistentD1 [of cmp b a] by auto

lemma consistent_trans:
  "consistent cmp \<Longrightarrow> cmp a b \<le> 0 \<Longrightarrow> cmp b c \<le> 0 \<Longrightarrow> cmp a c \<le> 0"
  unfolding consistent_def by blast

lemma consistent_compareEntries:
  assumes "consistent lc"
  shows "consistent (compareEntries lc)"
  unfolding consistent_def
proof (intro conjI allI impI)
  fix a b :: "jsstring \<times> nat"
  show "compareEntries lc a b < 0 \<longleftrightarrow> 0 < compareEntries lc b a"
    using consistentD1 [OF assms, of "fst a" "fst b"]
    by (auto simp: compareEntries_def)
next
  fix a b c :: "jsstring \<times> nat"
  assume "compareEntries lc a b \<le> 0" "compareEntries lc b c \<le> 0"
  then show "compareEntries lc a c \<le> 0"
    using consistent_trans [OF assms, of "fst a" "fst b" "fst c"]
    by (auto simp: compareEntries_def split: if_splits)
qed

lemma set_insort_cmp: "set (insort_cmp cmp x xs) = insert x (set xs)"
  by (induction xs) auto


lemma length_insort_cmp: "length (insort_cmp cmp x xs) = Suc (length xs)"
  by (induction xs) auto

lemma length_array_sort: "length (array_sort cmp xs) = length xs"
  by (induction xs) (simp_all add: array_sort_def length_insort_cmp)



lemma sorted_insort_cmp:
  assumes "consistent cmp" and "sorted_wrt (\<lambda>a b. cmp a b \<le> 0) xs"
  shows "sorted_wrt (\<lambda>a b. cmp a b \<le> 0) (insort_cmp cmp x xs)"
  using assms(2)
proof (induction xs)
  case Nil
  then show ?case by simp
next
  case (Cons y ys)
  show ?case
  proof (cases "cmp x y \<le> 0")
    case True
    with Cons.prems show ?thesis
      using consistent_trans [OF assms(1), of x y] by auto
  next
    case False
    then have "cmp y x \<le> 0"
      using consistent_total [OF assms(1), of x y] by simp
    with False Cons show ?thesis
      by (auto simp: set_insort_cmp)
  qed
qed

lemma sorted_array_sort:
  "consistent cmp \<Longrightarrow> sorted_wrt (\<lambda>a b. cmp a b \<le> 0) (array_sort cmp xs)"
  by (induction xs) (simp_all add: array_sort_def sorted_insort_cmp)


section \<open>The order of a ranked list\<close>

lemma length_mapToRankedArray: "length (mapToRankedArray lc cm) = length (cmap cm)"
  by (simp add: mapToRankedArray_def Let_def length_array_sort)

lemma nth_mapToRankedArray:
  assumes "i < length (cmap cm)"
  shows "mapToRankedArray lc cm ! i =
     \<lparr>sequence = fst (array_sort (compareEntries lc) (cmap cm) ! i),
      frequency = snd (array_sort (compareEntries lc) (cmap cm) ! i),
      rank = i + 1\<rparr>"
  using assms
  by (simp add: mapToRankedArray_def Let_def length_array_sort nth_enumerate_eq
      split: prod.splits)

lemma sorted_entries_adjacent:
  assumes "consistent lc" and "Suc i < length (cmap cm)"
  shows "compareEntries lc (array_sort (compareEntries lc) (cmap cm) ! i)
           (array_sort (compareEntries lc) (cmap cm) ! Suc i) \<le> 0"
  using sorted_array_sort [OF consistent_compareEntries [OF assms(1)], of "cmap cm"] assms(2)
  by (simp add: sorted_wrt_iff_nth_less length_array_sort)

text \<open>
  Claim C2, as stated, fails: for the text \<^verbatim>\<open>Ba\<close>, case-sensitive, the monograms are ranked
  \<^verbatim>\<open>a\<close> then \<^verbatim>\<open>B\<close> with equal frequencies, and \<^verbatim>\<open>a\<close> is after \<^verbatim>\<open>B\<close> in the lexicographic
  order of code units.
\<close>

theorem C2_counterexample:
  "monograms (calculateFilteredNGrams sample_toLowerCase sample_localeCompare [0x42, 0x61]
     \<lparr>filterWhitespace = True, filterPunctuation = False, caseSensitive = True\<rparr>) =
   [\<lparr>sequence = [0x61], frequency = 1, rank = 1\<rparr>,
    \<lparr>sequence = [0x42], frequency = 1, rank = 2\<rparr>] \<and>
   \<not> ([0x61] \<le> [0x42 :: jschar])"
proof -
  have "monograms (calculateFilteredNGrams sample_toLowerCase sample_localeCompare [0x42, 0x61]
     \<lparr>filterWhitespace = True, filterPunctuation = False, caseSensitive = True\<rparr>) =
   [\<lparr>sequence = [0x61], frequency = 1, rank = 1\<rparr>,
    \<lparr>sequence = [0x42], frequency = 1, rank = 2\<rparr>]"
    by code_simp
  then show ?thesis by simp
qed

text \<open>
  Claim C2, amended. In a ranked list, for adjacent entries \<open>a\<close> and \<open>b\<close>:
  \<open>a.frequency \<ge> b.frequency\<close>, \<open>a.rank + 1 = b.rank\<close> with rank 1 for the first entry,
  and when the frequencies are equal \<open>a.sequence\<close> is not after \<open>b.sequence\<close> in the order
  of the host's \<^verbatim>\<open>localeCompare\<close> (a consistent comparator), which is a collation
  order and not the lexicographic order of the strings' code units.
\<close>

theorem C2_ranking_order:
  assumes "consistent localeCompare"
    and "Suc i < length (mapToRankedArray localeCompare countMap)"
  shows "frequency (mapToRankedArray localeCompare countMap ! Suc i)
           \<le> frequency (mapToRankedArray localeCompare countMap ! i) \<and>
         rank (mapToRankedArray localeCompare countMap ! i) + 1 =
           rank (mapToRankedArray localeCompare countMap ! Suc i) \<and>
         rank (mapToRankedArray localeCompare countMap ! 0) = 1 \<and>
         (frequency (mapToRankedArray localeCompare countMap ! i) =
            frequency (mapToRankedArray localeCompare countMap ! Suc i) \<longrightarrow>
          localeCompare (sequence (mapToRankedArray localeCompare countMap ! i))
            (sequence (mapToRankedArray localeCompare countMap ! Suc i)) \<le> 0)"
proof -
  from assms(2) have len: "Suc i < length (cmap countMap)"
    by (simp add: length_mapToRankedArray)
  then have i: "i < length (cmap countMap)" and z: "0 < length (cmap countMap)"
    by auto
  from sorted_entries_adjacent [OF assms(1) len] show ?thesis
    by (simp add: nth_mapToRankedArray [OF len] nth_mapToRankedArray [OF i]
        nth_mapToRankedArray [OF z] compareEntries_def split: if_splits)
qed

theorem C2_witness:
  "consistent sample_localeCompare \<and>
   mapToRankedArray sample_localeCompare
     \<lparr>cmap = [([0x62], 2), ([0x61], 2), ([0x63], 5)], ctotal = 9\<rparr> =
   [\<lparr>sequence = [0x63], frequency = 5, rank = 1\<rparr>,
    \<lparr>sequence = [0x61], frequency = 2, rank = 2\<rparr>,
    \<lparr>sequence = [0x62], frequency = 2, rank = 3\<rparr>] \<and>
   sample_localeCompare [0x61] [0x62] \<le> 0"
proof -
  let ?cm = "\<lparr>cmap = [([0x62], 2), ([0x61], 2), ([0x63], 5)], ctotal = 9\<rparr>"
  have r: "mapToRankedArray sample_localeCompare ?cm =
     [\<lparr>sequence = [0x63], frequency = 5, rank = 1\<rparr>,
      \<lparr>sequence = [0x61], frequency = 2, rank = 2\<rparr>,
      \<lparr>sequence = [0x62], frequency = 2, rank = 3\<rparr>]"
    by code_simp
  have len: "Suc 1 < length (mapToRankedArray sample_localeCompare ?cm)"
    by (simp add: length_mapToRankedArray)
  from C2_ranking_order [OF consistent_sample_localeCompare len] r
    consistent_sample_localeCompare
  show ?thesis by simp
qed

section \<open>The ranked output and the order of the raw pairs\<close>












section \<open>The exported lines\<close>

declare decimal.simps [simp del]




lemma is_digit_digit: "d < 10 \<Longrightarrow> is_digit (digit d)"
proof -
  assume "d < 10"
  then have "d \<in> {0, 1, 2, 3, 4, 5, 6, 7, 8, 9}" by auto
  then show ?thesis by (auto simp: is_digit_def digit_def)
qed

lemma digits_decimal: "list_all is_digit (decimal n)"
proof (induction n rule: decimal.induct)
  case (1 n)
  show ?case
  proof (cases "n < 10")
    case True
    then show ?thesis by (simp add: decimal.simps [of n] is_digit_digit)
  next
    case False
    with 1 show ?thesis by (simp add: decimal.simps [of n] is_digit_digit)
  qed
qed

lemma decimal_nonempty: "decimal n \<noteq> []"
  by (subst decimal.simps) simp

lemma digit_value_digit: "d < 10 \<Longrightarrow> digit_value (digit d) = d"
proof -
  assume "d < 10"
  then have "d \<in> {0, 1, 2, 3, 4, 5, 6, 7, 8, 9}" by auto
  then show ?thesis by (auto simp: digit_value_def digit_def)
qed

lemma foldl_decimal:
  "foldl (\<lambda>a c. 10 * a + digit_value c) 0 (decimal n) = n"
proof (induction n rule: decimal.induct)
  case (1 n)
  show ?case
  proof (cases "n < 10")
    case True
    then show ?thesis by (simp add: decimal.simps [of n] digit_value_digit)
  next
    case False
    with 1 show ?thesis by (simp add: decimal.simps [of n] digit_value_digit)
  qed
qed











section \<open>Rounding to binary64\<close>














section \<open>The fields of an exported line\<close>








section \<open>Reading the export back\<close>





































section \<open>Reading back a serialized state\<close>

lemma toUSVString_id: "\<forall>c \<in> set s. \<not> is_surrogate c \<Longrightarrow> toUSVString s = s"
  by (induction s rule: toUSVString.induct)
    (auto simp: is_lead_def is_trail_def is_surrogate_def)

lemma is_digit_not_surrogate: "is_digit c \<Longrightarrow> \<not> is_surrogate c"
  by (auto simp: is_digit_def is_surrogate_def word_le_nat_alt)

lemma toUSVString_decimal: "toUSVString (decimal n) = decimal n"
  using digits_decimal [of n]
  by (intro toUSVString_id) (auto simp: list_all_iff is_digit_not_surrogate)

lemma toUSVString_literals:
  "toUSVString (ascii ''true'') = ascii ''true''"
  "toUSVString (ascii ''false'') = ascii ''false''"
  "toUSVString (ascii ''custom'') = ascii ''custom''"
  by (simp_all add: ascii_def is_surrogate_def is_lead_def)

lemma toUSVString_type_string: "toUSVString (type_string t) = type_string t"
  by (cases t) (simp_all add: type_string_def ascii_def is_surrogate_def is_lead_def)

lemma parse_type_string:
  "t \<noteq> Skipgrams \<Longrightarrow> parse_type (type_string t) = Some t"
  by (cases t) (simp_all add: type_string_def parse_type_def ascii_def)

lemma parse_type_skipgrams: "parse_type (type_string Skipgrams) = None"
  by (simp add: type_string_def parse_type_def ascii_def)

lemma type_string_nonempty: "type_string t \<noteq> []"
  by (cases t) (simp_all add: type_string_def ascii_def)

lemma hd_decimal: "is_digit (hd (decimal n))"
  using digits_decimal [of n] decimal_nonempty [of n]
  by (cases "decimal n") (auto simp: list_all_iff)

lemma is_digit_plain:
  "is_digit c \<Longrightarrow> \<not> regex_s c \<and> c \<noteq> 0x2B \<and> c \<noteq> 0x2D"
  by (auto simp: is_digit_def regex_s_def word_le_nat_alt)

lemma parseInt10_decimal: "parseInt10 (decimal n) = Some (int n)"
proof -
  have ne: "decimal n \<noteq> []" by (rule decimal_nonempty)
  have h: "\<not> regex_s (hd (decimal n))" "hd (decimal n) \<noteq> 0x2B" "hd (decimal n) \<noteq> 0x2D"
    using is_digit_plain [OF hd_decimal [of n]] by simp_all
  have all: "takeWhile is_digit (decimal n) = decimal n"
    using digits_decimal [of n] by (simp add: list_all_iff)
  have dw: "dropWhile regex_s (decimal n) = decimal n"
    using ne h(1) by (cases "decimal n") simp_all
  show ?thesis
    unfolding parseInt10_def dw Let_def
    by (simp add: ne h all foldl_decimal)
qed

lemma get_set_if:
  "params_get (set_if b k v params) k' =
     (if b \<and> k' = k then Some (toUSVString v) else params_get params k')"
  by (simp add: set_if_def params_set_def params_get_def)

lemma serializeState_lookup:
  "params_get (serializeState (as_partial state)) ''type'' =
     (if selectedNGramType state \<noteq> Bigrams then Some (type_string (selectedNGramType state))
      else None)"
  "params_get (serializeState (as_partial state)) ''limit'' =
     (if limit (search state) > 0 then Some (decimal (limit (search state))) else None)"
  "params_get (serializeState (as_partial state)) ''search'' =
     (if query (search state) \<noteq> [] then Some (toUSVString (query (search state))) else None)"
  "params_get (serializeState (as_partial state)) ''regex'' =
     (if useRegex (search state) then Some (ascii ''true'') else None)"
  "params_get (serializeState (as_partial state)) ''whitespace'' =
     (if \<not> filterWhitespace (filters (search state)) then Some (ascii ''false'') else None)"
  "params_get (serializeState (as_partial state)) ''punct'' =
     (if filterPunctuation (filters (search state)) then Some (ascii ''true'') else None)"
  "params_get (serializeState (as_partial state)) ''case'' =
     (if caseSensitive (filters (search state)) then Some (ascii ''true'') else None)"
  by (cases "corpus state";
      simp add: serializeState_def as_partial_def Let_def get_set_if toUSVString_literals
        toUSVString_decimal toUSVString_type_string,
      simp add: params_get_def params_set_def)+

lemma apply_url_state_fields:
  "selectedNGramType (apply_url_state c u) =
     (case selectedNGramType_opt u of Some t \<Rightarrow> t | None \<Rightarrow> selectedNGramType c)"
  "search (apply_url_state c u) = (case search_opt u of Some s \<Rightarrow> s | None \<Rightarrow> search c)"
  by (simp_all add: apply_url_state_def Let_def split: option.splits)

lemma deserializeState_type:
  "selectedNGramType_opt (deserializeState params) =
     (case params_get params ''type'' of
        None \<Rightarrow> None
      | Some typeParam \<Rightarrow> if typeParam = [] then None else parse_type typeParam)"
  by (simp add: deserializeState_def Let_def)

lemma deserialize_type:
  assumes "selectedNGramType state \<noteq> Skipgrams"
  shows "selectedNGramType (apply_url_state initial_state
           (deserializeState (serializeState (as_partial state)))) = selectedNGramType state"
  unfolding apply_url_state_fields deserializeState_type serializeState_lookup
  using assms
  by (simp add: parse_type_string type_string_nonempty initial_state_def)

lemma case_if_option:
  "P R \<Longrightarrow> P d \<Longrightarrow> P (case (if C then Some R else None) of None \<Rightarrow> d | Some s \<Rightarrow> s)"
  by simp

lemma deserialize_default_whitespace:
  assumes "params_get params ''whitespace'' = None"
  shows "filterWhitespace (filters (search (apply_url_state initial_state (deserializeState params))))"
  unfolding apply_url_state_fields deserializeState_def Let_def PartialState.simps
  by (rule case_if_option) (simp_all add: assms initial_state_def)

lemma deserialize_default_punct:
  assumes "params_get params ''punct'' = None"
  shows "\<not> filterPunctuation (filters (search (apply_url_state initial_state (deserializeState params))))"
  unfolding apply_url_state_fields deserializeState_def Let_def PartialState.simps
  by (rule case_if_option) (simp_all add: assms initial_state_def)

lemma deserialize_default_case:
  assumes "params_get params ''case'' = None"
  shows "\<not> caseSensitive (filters (search (apply_url_state initial_state (deserializeState params))))"
  unfolding apply_url_state_fields deserializeState_def Let_def PartialState.simps
  by (rule case_if_option) (simp_all add: assms initial_state_def)

lemma deserialize_default_limit:
  assumes "params_get params ''limit'' = None"
  shows "limit (search (apply_url_state initial_state (deserializeState params))) = 0"
  unfolding apply_url_state_fields deserializeState_def Let_def PartialState.simps
  by (rule case_if_option [where P = "\<lambda>s. limit s = 0"]) (simp_all add: assms initial_state_def)

lemma deserialize_search:
  assumes "toUSVString (query (search state)) = query (search state)"
  shows "search (apply_url_state initial_state
           (deserializeState (serializeState (as_partial state)))) = search state"
proof -
  obtain q r f l where s: "search state = \<lparr>query = q, useRegex = r, filters = f, limit = l\<rparr>"
    by (cases "search state") auto
  obtain fw fp cs where f: "f = \<lparr>filterWhitespace = fw, filterPunctuation = fp, caseSensitive = cs\<rparr>"
    by (cases f) auto
  from assms have q: "toUSVString q = q" by (simp add: s)
  show ?thesis
    unfolding apply_url_state_fields deserializeState_def serializeState_lookup Let_def s f
    by (cases "q = []"; cases r; cases fw; cases fp; cases cs; cases "l = 0";
        simp add: q parseInt10_decimal decimal_nonempty initial_state_def)
qed

text \<open>
  Claim C6, as stated, fails: the table type \<^verbatim>\<open>skipgrams\<close> is serialized, but it is not
  among the types \<^verbatim>\<open>deserializeState\<close> accepts, and the restored state has the default type
  \<^verbatim>\<open>bigrams\<close>.
\<close>

theorem C6_counterexample:
  "selectedNGramType (apply_url_state initial_state
     (deserializeState (serializeState (as_partial (initial_state\<lparr>selectedNGramType := Skipgrams\<rparr>)))))
   = Bigrams"
  unfolding apply_url_state_fields deserializeState_type serializeState_lookup
  by (simp add: parse_type_skipgrams initial_state_def type_string_nonempty)

text \<open>
  Claim C6, amended. For a state whose active table type is monograms, bigrams, trigrams
  or words, whose search query has no unpaired surrogate and whose limit is a natural
  number below \<open>2^53\<close>, deserializing the serialized state and merging it into the initial
  state gives back the table type, the query, the regex flag, the limit and the filter
  settings. Whatever the parameters, a key that is absent is restored to its default:
  \<open>filterWhitespace = true\<close>, \<open>filterPunctuation = false\<close>, \<open>caseSensitive = false\<close>,
  \<open>limit = 0\<close>.
\<close>

theorem C6_url_state_roundtrip:
  "(selectedNGramType state \<noteq> Skipgrams \<and>
    toUSVString (query (search state)) = query (search state) \<and>
    limit (search state) < 2 ^ 53 \<longrightarrow>
    selectedNGramType (apply_url_state initial_state
      (deserializeState (serializeState (as_partial state)))) = selectedNGramType state \<and>
    search (apply_url_state initial_state
      (deserializeState (serializeState (as_partial state)))) = search state) \<and>
   (params_get params ''whitespace'' = None \<longrightarrow>
      filterWhitespace (filters (search (apply_url_state initial_state (deserializeState params))))) \<and>
   (params_get params ''punct'' = None \<longrightarrow>
      \<not> filterPunctuation (filters (search (apply_url_state initial_state (deserializeState params))))) \<and>
   (params_get params ''case'' = None \<longrightarrow>
      \<not> caseSensitive (filters (search (apply_url_state initial_state (deserializeState params))))) \<and>
   (params_get params ''limit'' = None \<longrightarrow>
      limit (search (apply_url_state initial_state (deserializeState params))) = 0)"
proof (intro conjI impI)
  assume a: "selectedNGramType state \<noteq> Skipgrams \<and>
    toUSVString (query (search state)) = query (search state) \<and> limit (search state) < 2 ^ 53"
  from a show "selectedNGramType (apply_url_state initial_state
      (deserializeState (serializeState (as_partial state)))) = selectedNGramType state"
    by (intro deserialize_type) simp
  from a show "search (apply_url_state initial_state
      (deserializeState (serializeState (as_partial state)))) = search state"
    by (intro deserialize_search) simp
qed (erule deserialize_default_whitespace deserialize_default_punct deserialize_default_case
      deserialize_default_limit)+

theorem C6_witness:
  "Words \<noteq> Skipgrams \<and> toUSVString (ascii ''ab'') = ascii ''ab'' \<and> (25 :: nat) < 2 ^ 53 \<and>
   selectedNGramType (apply_url_state initial_state (deserializeState (serializeState (as_partial
     \<lparr>corpus = None,
      search = \<lparr>query = ascii ''ab'', useRegex = True,
                filters = \<lparr>filterWhitespace = False, filterPunctuation = True,
                            caseSensitive = True\<rparr>,
                limit = 25\<rparr>,
      selectedNGramType = Words\<rparr>)))) = Words \<and>
   search (apply_url_state initial_state (deserializeState (serializeState (as_partial
     \<lparr>corpus = None,
      search = \<lparr>query = ascii ''ab'', useRegex = True,
                filters = \<lparr>filterWhitespace = False, filterPunctuation = True,
                            caseSensitive = True\<rparr>,
                limit = 25\<rparr>,
      selectedNGramType = Words\<rparr>)))) =
     \<lparr>query = ascii ''ab'', useRegex = True,
      filters = \<lparr>filterWhitespace = False, filterPunctuation = True, caseSensitive = True\<rparr>,
      limit = 25\<rparr> \<and>
   params_get Map.empty ''whitespace'' = None \<and>
   filterWhitespace (filters (search (apply_url_state initial_state (deserializeState Map.empty)))) \<and>
   limit (search (apply_url_state initial_state (deserializeState Map.empty))) = 0"
proof -
  let ?s = "\<lparr>corpus = None,
      search = \<lparr>query = ascii ''ab'', useRegex = True,
                filters = \<lparr>filterWhitespace = False, filterPunctuation = True,
                            caseSensitive = True\<rparr>,
                limit = 25\<rparr>,
      selectedNGramType = Words\<rparr>"
  have u: "toUSVString (ascii ''ab'') = ascii ''ab''"
    by (simp add: ascii_def is_surrogate_def is_lead_def)
  have e: "params_get Map.empty k = None" for k
    by (simp add: params_get_def)
  from C6_url_state_roundtrip [of ?s Map.empty] u e show ?thesis
    by simp
qed

end
